theory Spec2Isabelle
  imports Complex_Main "HOL-Library.Word"
begin

section \<open>The voice session engine of App.tsx\<close>

text \<open>
  The component \<open>App\<close> keeps its session in React state (\<open>convState\<close>, \<open>messages\<close>)
  and in seven refs. The model is a record of exactly these, passed through every
  handler and returned updated. Calls on external objects (the live session, the audio
  contexts, the buffer sources) are recorded, in order, in \<open>trace\<close>.

  Conventions of the model:
  \<^item> an external object is identified by a \<open>handle\<close>;
  \<^item> JavaScript numbers that hold times on the audio clock are idealised as \<open>real\<close>
    (no rounding of float addition);
  \<^item> \<open>setConvState\<close> and \<open>setMessages\<close> calls take effect in the order they are made,
    which is the order React applies queued updates in;
  \<^item> a handler runs to completion before the next one starts: no other handler runs
    while \<open>onmessage\<close> waits at the \<open>await\<close> of line 102.
\<close>

subsection \<open>types.ts\<close>

datatype Sender = User | Ai

record Message =
  id_m :: string
  text_m :: string
  sender_m :: Sender
  timestamp_m :: nat

record ConversationState =
  isActive :: bool
  isConnecting :: bool
  error :: "string option"

subsection \<open>State of the component\<close>

type_synonym handle = nat

datatype effect =
    SessionClose handle
  | ContextClose handle
  | SourceStart handle real real
  | SourceStop handle

text \<open>
  \<open>SessionClose h\<close> is \<open>sessionRef.current.close()\<close>, \<open>ContextClose c\<close> is
  \<open>close()\<close> on an audio context, \<open>SourceStart src t d\<close> is \<open>source.start(t)\<close> on a
  source whose buffer lasts \<open>d\<close>, and \<open>SourceStop src\<close> is \<open>s.stop()\<close>.
  \<open>nextSource\<close> is the identity the next \<open>ctx.createBufferSource()\<close> returns;
  \<open>sourcesRef\<close> is the JavaScript \<open>Set\<close> in insertion order.
\<close>

record state =
  convState :: ConversationState
  messages :: "Message list"
  sessionRef :: "handle option"
  audioContextInRef :: "handle option"
  audioContextOutRef :: "handle option"
  sourcesRef :: "handle list"
  nextStartTimeRef :: real
  currentInputTranscriptRef :: string
  currentOutputTranscriptRef :: string
  nextSource :: handle
  trace :: "effect list"

definition idle :: ConversationState where
  "idle = \<lparr>isActive = False, isConnecting = False, error = None\<rparr>"

definition initial :: state where
  "initial = \<lparr>convState = idle, messages = [], sessionRef = None,
     audioContextInRef = None, audioContextOutRef = None, sourcesRef = [],
     nextStartTimeRef = 0, currentInputTranscriptRef = [],
     currentOutputTranscriptRef = [], nextSource = 0, trace = []\<rparr>"

subsection \<open>stopConversation (lines 40-54)\<close>

definition closeSession :: "state \<Rightarrow> state" where
  "closeSession s =
     (case sessionRef s of
        Some h \<Rightarrow> s\<lparr>trace := trace s @ [SessionClose h], sessionRef := None\<rparr>
      | None \<Rightarrow> s)"

definition closeContextIn :: "state \<Rightarrow> state" where
  "closeContextIn s =
     (case audioContextInRef s of
        Some c \<Rightarrow> s\<lparr>trace := trace s @ [ContextClose c], audioContextInRef := None\<rparr>
      | None \<Rightarrow> s)"

definition closeContextOut :: "state \<Rightarrow> state" where
  "closeContextOut s =
     (case audioContextOutRef s of
        Some c \<Rightarrow> s\<lparr>trace := trace s @ [ContextClose c], audioContextOutRef := None\<rparr>
      | None \<Rightarrow> s)"

definition stopConversation :: "state \<Rightarrow> state" where
  "stopConversation s =
     (closeContextOut (closeContextIn (closeSession s)))\<lparr>convState := idle\<rparr>"

subsection \<open>startConversation (lines 56-167)\<close>

text \<open>
  What the browser and the SDK answer during one call of \<open>startConversation\<close>:
  \<open>getUserMedia\<close> resolves with a stream or rejects, each \<open>new AudioContext\<close> returns
  a context or throws, and the promise of \<open>ai.live.connect\<close> resolves with a session
  or rejects. A thrown value is seen only through its \<open>message\<close> property, which may be
  absent.
\<close>

datatype js_error = JsError (message: "string option")

record start_env =
  getUserMedia :: "js_error + handle"
  newContextIn :: "js_error + handle"
  newContextOut :: "js_error + handle"
  connect :: "js_error + handle"

text \<open>Line 57: \<open>setConvState(prev => ({ ...prev, isConnecting: true, error: null }))\<close>.\<close>

definition startConnecting :: "state \<Rightarrow> state" where
  "startConnecting s =
     s\<lparr>convState := (convState s)\<lparr>isConnecting := True, error := None\<rparr>\<rparr>"

text \<open>
  Lines 163-166, the \<open>catch\<close>: \<open>err.message || 'Failed to start microphone.'\<close>.
  An absent or empty message is falsy.
\<close>

definition errorText :: "js_error \<Rightarrow> string" where
  "errorText err =
     (case message err of
        None \<Rightarrow> ''Failed to start microphone.''
      | Some msg \<Rightarrow> if msg = [] then ''Failed to start microphone.'' else msg)"

definition catchStart :: "js_error \<Rightarrow> state \<Rightarrow> state" where
  "catchStart err s =
     s\<lparr>convState := \<lparr>isActive = False, isConnecting = False,
                      error = Some (errorText err)\<rparr>\<rparr>"

text \<open>Lines 59-162, the \<open>try\<close> block; a ref assigned before a throw keeps its value.\<close>

definition tryStart :: "start_env \<Rightarrow> state \<Rightarrow> state" where
  "tryStart e s =
     (case getUserMedia e of
        Inl err \<Rightarrow> catchStart err s
      | Inr stream \<Rightarrow>
          (case newContextIn e of
             Inl err \<Rightarrow> catchStart err s
           | Inr cin \<Rightarrow>
               let s1 = s\<lparr>audioContextInRef := Some cin\<rparr> in
               (case newContextOut e of
                  Inl err \<Rightarrow> catchStart err s1
                | Inr cout \<Rightarrow>
                    let s2 = s1\<lparr>audioContextOutRef := Some cout\<rparr> in
                    (case connect e of
                       Inl err \<Rightarrow> catchStart err s2
                     | Inr session \<Rightarrow> s2\<lparr>sessionRef := Some session\<rparr>))))"

definition startConversation :: "start_env \<Rightarrow> state \<Rightarrow> state" where
  "startConversation e s = tryStart e (startConnecting s)"

subsection \<open>The transport callbacks onopen, onerror, onclose (lines 80-95, 151-158)\<close>

text \<open>Of \<open>onopen\<close> only the state update of line 81 is modelled, not the capture wiring.\<close>

definition onopen :: "state \<Rightarrow> state" where
  "onopen s = s\<lparr>convState := \<lparr>isActive = True, isConnecting = False, error = None\<rparr>\<rparr>"

definition onerror :: "state \<Rightarrow> state" where
  "onerror s =
     stopConversation
       (s\<lparr>convState := (convState s)\<lparr>error := Some ''Connection error occurred.''\<rparr>\<rparr>)"

definition onclose :: "state \<Rightarrow> state" where
  "onclose s = s\<lparr>convState := idle\<rparr>"

subsection \<open>onmessage (lines 96-150) and onended (line 107)\<close>

text \<open>
  Of a \<open>LiveServerMessage\<close> the handler reads five things. \<open>inlineData\<close> is the
  base64 audio of the first part of the model turn, absent when the string is missing or
  empty; \<open>services/audioUtils\<close> is not part of the sources at hand, so the chunk is
  given by what \<open>decodeAudioData(decode(base64Audio), ctx, 24000, 1)\<close> does with it:
  it throws (\<open>Malformed\<close>), or it returns a buffer of duration \<open>d\<close> (\<open>Pcm d\<close>).
  A transcription is present or absent, and its \<open>text\<close> is a string.
\<close>

datatype chunk = Malformed | Pcm real

record LiveServerMessage =
  inlineData :: "chunk option"
  inputTranscription :: "string option"
  outputTranscription :: "string option"
  turnComplete :: bool
  interrupted :: bool

text \<open>
  What the handler reads from its surroundings: \<open>ctx.currentTime\<close> at line 100, and the
  results of the two \<open>Math.random().toString()\<close> and \<open>new Date()\<close> calls of lines
  126-137.
\<close>

record env =
  currentTime :: real
  randomUser :: string
  dateUser :: nat
  randomAi :: string
  dateAi :: nat

datatype failure = FormatError

definition setAdd :: "handle \<Rightarrow> handle list \<Rightarrow> handle list" where
  "setAdd x xs = (if x \<in> set xs then xs else xs @ [x])"

text \<open>
  Lines 97-111. The cursor is raised to the clock at line 100, before the chunk is
  decoded at line 102; a throw there rejects the handler's promise and leaves the state
  as it is at that point.
\<close>

definition scheduleAudio :: "env \<Rightarrow> LiveServerMessage \<Rightarrow> state \<Rightarrow> failure \<times> state + state" where
  "scheduleAudio e m s =
     (case inlineData m of
        None \<Rightarrow> Inr s
      | Some c \<Rightarrow>
          (case audioContextOutRef s of
             None \<Rightarrow> Inr s
           | Some ctx \<Rightarrow>
               let s1 = s\<lparr>nextStartTimeRef := max (nextStartTimeRef s) (currentTime e)\<rparr> in
               (case c of
                  Malformed \<Rightarrow> Inl (FormatError, s1)
                | Pcm d \<Rightarrow>
                    Inr (s1\<lparr>trace := trace s1 @ [SourceStart (nextSource s1) (nextStartTimeRef s1) d],
                            nextStartTimeRef := nextStartTimeRef s1 + d,
                            sourcesRef := setAdd (nextSource s1) (sourcesRef s1),
                            nextSource := Suc (nextSource s1)\<rparr>))))"

text \<open>Lines 113-118.\<close>

definition appendTranscripts :: "LiveServerMessage \<Rightarrow> state \<Rightarrow> state" where
  "appendTranscripts m s =
     (let s1 = (case inputTranscription m of
                  Some t \<Rightarrow> s\<lparr>currentInputTranscriptRef := currentInputTranscriptRef s @ t\<rparr>
                | None \<Rightarrow> s)
      in case outputTranscription m of
           Some t \<Rightarrow> s1\<lparr>currentOutputTranscriptRef := currentOutputTranscriptRef s1 @ t\<rparr>
         | None \<Rightarrow> s1)"

text \<open>Lines 120-143; an empty string is falsy.\<close>

definition completeTurn :: "env \<Rightarrow> LiveServerMessage \<Rightarrow> state \<Rightarrow> state" where
  "completeTurn e m s =
     (if turnComplete m then
        let userText = currentInputTranscriptRef s;
            aiText = currentOutputTranscriptRef s;
            s1 = (if userText = [] then s
                  else s\<lparr>messages := messages s @
                         [\<lparr>id_m = randomUser e, text_m = userText, sender_m = User,
                           timestamp_m = dateUser e\<rparr>]\<rparr>);
            s2 = (if aiText = [] then s1
                  else s1\<lparr>messages := messages s1 @
                         [\<lparr>id_m = randomAi e, text_m = aiText, sender_m = Ai,
                           timestamp_m = dateAi e\<rparr>]\<rparr>)
        in s2\<lparr>currentInputTranscriptRef := [], currentOutputTranscriptRef := []\<rparr>
      else s)"

text \<open>Lines 145-149.\<close>

definition interrupt :: "LiveServerMessage \<Rightarrow> state \<Rightarrow> state" where
  "interrupt m s =
     (if interrupted m then
        s\<lparr>trace := trace s @ map SourceStop (sourcesRef s), sourcesRef := [],
          nextStartTimeRef := 0\<rparr>
      else s)"

definition onmessage :: "env \<Rightarrow> LiveServerMessage \<Rightarrow> state \<Rightarrow> failure \<times> state + state" where
  "onmessage e m s =
     (case scheduleAudio e m s of
        Inl r \<Rightarrow> Inl r
      | Inr s1 \<Rightarrow> Inr (interrupt m (completeTurn e m (appendTranscripts m s1))))"

definition onended :: "handle \<Rightarrow> state \<Rightarrow> state" where
  "onended src s = s\<lparr>sourcesRef := removeAll src (sourcesRef s)\<rparr>"

text \<open>The state a handler call leaves behind, whether its promise resolved or rejected.\<close>

definition handled :: "env \<Rightarrow> LiveServerMessage \<Rightarrow> state \<Rightarrow> state" where
  "handled e m s = (case onmessage e m s of Inl (f, s') \<Rightarrow> s' | Inr s' \<Rightarrow> s')"

fun run :: "(env \<times> LiveServerMessage) list \<Rightarrow> state \<Rightarrow> state" where
  "run [] s = s"
| "run ((e, m) # rest) s = run rest (handled e m s)"

subsection \<open>The session buttons (lines 268-295)\<close>

text \<open>
  The footer renders one button: while \<open>convState.isActive\<close> is false the start
  button, with \<open>onClick={startConversation}\<close> and \<open>disabled={convState.isConnecting}\<close>,
  otherwise the end button, with \<open>onClick={stopConversation}\<close>. A disabled button
  delivers no click.
\<close>

datatype control = StartButton bool | EndButton

definition control :: "ConversationState \<Rightarrow> control" where
  "control cs = (if \<not> isActive cs then StartButton (isConnecting cs) else EndButton)"

definition click :: "start_env \<Rightarrow> state \<Rightarrow> state" where
  "click e s =
     (case control (convState s) of
        StartButton disabled \<Rightarrow> if disabled then s else startConversation e s
      | EndButton \<Rightarrow> stopConversation s)"

subsection \<open>Sequences of audio chunks and what the trace shows of them\<close>

text \<open>
  An enqueue is a call of \<open>onmessage\<close> with a message that carries an audio chunk and
  nothing else, made when the output clock reads \<open>t\<close>. \<open>enqueues\<close> makes one such call
  for every pair of clock time and decoded duration, in order.
\<close>

definition clock :: "real \<Rightarrow> env" where
  "clock t = \<lparr>currentTime = t, randomUser = [], dateUser = 0, randomAi = [], dateAi = 0\<rparr>"

definition audioMessage :: "chunk \<Rightarrow> LiveServerMessage" where
  "audioMessage c = \<lparr>inlineData = Some c, inputTranscription = None,
     outputTranscription = None, turnComplete = False, interrupted = False\<rparr>"

definition enqueue :: "real \<Rightarrow> chunk \<Rightarrow> state \<Rightarrow> state" where
  "enqueue t c s = handled (clock t) (audioMessage c) s"

fun enqueues :: "(real \<times> real) list \<Rightarrow> state \<Rightarrow> state" where
  "enqueues [] s = s"
| "enqueues ((t, d) # rest) s = enqueues rest (enqueue t (Pcm d) s)"

text \<open>The segments started so far, each with its start time and duration, in order.\<close>

fun scheduled :: "effect list \<Rightarrow> (real \<times> real) list" where
  "scheduled [] = []"
| "scheduled (SourceStart src t d # tr) = (t, d) # scheduled tr"
| "scheduled (x # tr) = scheduled tr"

text \<open>
  \<open>keepsUp c tds\<close>: every chunk of \<open>tds\<close> is enqueued no later than the end of the
  segment before it, the first no later than \<open>c\<close>. \<open>gapless c ds\<close> places segments of
  durations \<open>ds\<close> back to back from \<open>c\<close>. \<open>noOverlap c segs\<close>: every segment starts
  at or after the end of the one before it, the first at or after \<open>c\<close>.
\<close>

fun keepsUp :: "real \<Rightarrow> (real \<times> real) list \<Rightarrow> bool" where
  "keepsUp c [] = True"
| "keepsUp c ((t, d) # rest) = (t \<le> c \<and> keepsUp (c + d) rest)"

fun gapless :: "real \<Rightarrow> real list \<Rightarrow> (real \<times> real) list" where
  "gapless c [] = []"
| "gapless c (d # ds) = (c, d) # gapless (c + d) ds"

fun noOverlap :: "real \<Rightarrow> (real \<times> real) list \<Rightarrow> bool" where
  "noOverlap c [] = True"
| "noOverlap c ((t, d) # rest) = (c \<le> t \<and> noOverlap (t + d) rest)"

text \<open>
  The locals \<open>userText\<close> and \<open>aiText\<close> of lines 121-122, as the handler of message \<open>m\<close>
  reads them when it starts in state \<open>s\<close>: the fragments of \<open>m\<close> itself are already
  appended (lines 113-118).
\<close>

definition userText :: "LiveServerMessage \<Rightarrow> state \<Rightarrow> string" where
  "userText m s =
     currentInputTranscriptRef s @ (case inputTranscription m of Some t \<Rightarrow> t | None \<Rightarrow> [])"

definition aiText :: "LiveServerMessage \<Rightarrow> state \<Rightarrow> string" where
  "aiText m s =
     currentOutputTranscriptRef s @ (case outputTranscription m of Some t \<Rightarrow> t | None \<Rightarrow> [])"

text \<open>The state with the cursor raised to the clock reading \<open>t\<close>, as line 100 leaves it.\<close>

definition raised :: "real \<Rightarrow> state \<Rightarrow> state" where
  "raised t s = s\<lparr>nextStartTimeRef := max (nextStartTimeRef s) t\<rparr>"

subsection \<open>Concrete sessions and messages\<close>

text \<open>
  An active session as \<open>startConversation\<close> and \<open>onopen\<close> leave it (session 1, input
  context 2, output context 3); the same session with two segments of one second
  scheduled at 0 and 1; and the same session with pending transcripts.
\<close>

definition activeSession :: state where
  "activeSession = initial\<lparr>convState := \<lparr>isActive = True, isConnecting = False, error = None\<rparr>,
     sessionRef := Some 1, audioContextInRef := Some 2, audioContextOutRef := Some 3\<rparr>"

definition playingSession :: state where
  "playingSession = activeSession\<lparr>sourcesRef := [0, 1], nextStartTimeRef := 2, nextSource := 2,
     trace := [SourceStart 0 0 1, SourceStart 1 1 1]\<rparr>"


definition okEnv :: start_env where
  "okEnv = \<lparr>getUserMedia = Inr 4, newContextIn = Inr 5, newContextOut = Inr 6,
     connect = Inr 7\<rparr>"

definition deniedEnv :: start_env where
  "deniedEnv = \<lparr>getUserMedia = Inl (JsError (Some ''Permission denied'')),
     newContextIn = Inr 5, newContextOut = Inr 6, connect = Inr 7\<rparr>"

definition refusedEnv :: start_env where
  "refusedEnv = \<lparr>getUserMedia = Inr 4, newContextIn = Inr 5, newContextOut = Inr 6,
     connect = Inl (JsError (Some []))\<rparr>"

definition interruptedMessage :: LiveServerMessage where
  "interruptedMessage = \<lparr>inlineData = None, inputTranscription = None,
     outputTranscription = None, turnComplete = False, interrupted = True\<rparr>"





section \<open>The PCM codec\<close>

text \<open>
  Modelled from the spec: the module \<open>services/audioUtils\<close> (\<open>encode\<close>, \<open>decode\<close>,
  \<open>createPcmBlob\<close>, \<open>decodeAudioData\<close>) is imported by App.tsx but is not among the
  sources. The codec below follows section 4.1 of the specification: samples are
  quantised to 16-bit signed integers, packed little-endian, and carried in a text-safe
  binary-to-text encoding, for which the standard base64 alphabet with \<open>=\<close> padding is
  taken; decoding inverts each step and rejects malformed input with a format error.
  Samples are idealised as \<open>real\<close>. The specification does not say how many
  quantisation steps make up the unit, so the number is the parameter \<open>scale\<close>.
\<close>

type_synonym byte = "8 word"
type_synonym int16 = "16 word"

text \<open>
  Modelled from the spec: the quantiser of the missing encoder, "rounded to the nearest
  representable 16-bit step": the nearest integer to \<open>x * scale\<close>, kept within the range
  of a 16-bit signed integer.
\<close>

definition quantise :: "real \<Rightarrow> real \<Rightarrow> int16" where
  "quantise scale x = word_of_int (max (- 32768) (min 32767 (round (x * scale))))"

text \<open>Modelled from the spec: the missing decoder's "scaled back to [-1,1]".\<close>

definition dequantise :: "real \<Rightarrow> int16 \<Rightarrow> real" where
  "dequantise scale w = real_of_int (sint w) / scale"

text \<open>
  Modelled from the spec: the missing packing, "16-bit little-endian signed integer
  samples packed consecutively", and its inverse; an odd number of bytes is malformed.
\<close>

definition leBytes :: "int16 \<Rightarrow> byte list" where
  "leBytes w = [ucast w, ucast (drop_bit 8 w)]"

fun fromLeBytes :: "byte list \<Rightarrow> int16 list option" where
  "fromLeBytes [] = Some []"
| "fromLeBytes (lo # hi # rest) = map_option ((#) (word_cat hi lo)) (fromLeBytes rest)"
| "fromLeBytes [b] = None"

text \<open>
  Modelled from the spec: the missing "text-safe binary-to-text encoding", as base64.
  \<open>digitChar\<close> maps a six-bit value to its character (\<open>A-Z\<close>, \<open>a-z\<close>, \<open>0-9\<close>, \<open>+\<close>,
  \<open>/\<close>), \<open>charDigit\<close> maps back.
\<close>

definition digitChar :: "nat \<Rightarrow> char" where
  "digitChar n =
     (if n < 26 then char_of (65 + n)
      else if n < 52 then char_of (71 + n)
      else if n < 62 then char_of (n - 4)
      else if n = 62 then CHR ''+'' else CHR ''/'')"

definition charDigit :: "char \<Rightarrow> nat option" where
  "charDigit c =
     (let k = (of_char c :: nat) in
      if 65 \<le> k \<and> k \<le> 90 then Some (k - 65)
      else if 97 \<le> k \<and> k \<le> 122 then Some (k - 71)
      else if 48 \<le> k \<and> k \<le> 57 then Some (k + 4)
      else if k = 43 then Some 62
      else if k = 47 then Some 63
      else None)"

fun base64 :: "byte list \<Rightarrow> string" where
  "base64 [] = []"
| "base64 [a] =
     [digitChar (unat a div 4), digitChar (unat a mod 4 * 16), CHR ''='', CHR ''='']"
| "base64 [a, b] =
     [digitChar (unat a div 4), digitChar (unat a mod 4 * 16 + unat b div 16),
      digitChar (unat b mod 16 * 4), CHR ''='']"
| "base64 (a # b # c # rest) =
     [digitChar (unat a div 4), digitChar (unat a mod 4 * 16 + unat b div 16),
      digitChar (unat b mod 16 * 4 + unat c div 64), digitChar (unat c mod 64)]
     @ base64 rest"

fun unbase64 :: "string \<Rightarrow> byte list option" where
  "unbase64 [] = Some []"
| "unbase64 (c1 # c2 # c3 # c4 # rest) =
     (if rest = [] \<and> c3 = CHR ''='' \<and> c4 = CHR ''='' then
        (case (charDigit c1, charDigit c2) of
           (Some s1, Some s2) \<Rightarrow> Some [of_nat (s1 * 4 + s2 div 16)]
         | _ \<Rightarrow> None)
      else if rest = [] \<and> c4 = CHR ''='' then
        (case (charDigit c1, charDigit c2, charDigit c3) of
           (Some s1, Some s2, Some s3) \<Rightarrow>
             Some [of_nat (s1 * 4 + s2 div 16), of_nat (s2 mod 16 * 16 + s3 div 4)]
         | _ \<Rightarrow> None)
      else
        (case (charDigit c1, charDigit c2, charDigit c3, charDigit c4) of
           (Some s1, Some s2, Some s3, Some s4) \<Rightarrow>
             map_option
               ((@) [of_nat (s1 * 4 + s2 div 16), of_nat (s2 mod 16 * 16 + s3 div 4),
                     of_nat (s3 mod 4 * 64 + s4)])
               (unbase64 rest)
         | _ \<Rightarrow> None))"
| "unbase64 cs = None"

text \<open>
  Modelled from the spec: the missing \<open>encode\<close> and \<open>decode\<close> of the PCM codec, as the
  contract of section 4.1 words them.
\<close>

definition encode :: "real \<Rightarrow> real list \<Rightarrow> string" where
  "encode scale samples = base64 (concat (map (\<lambda>x. leBytes (quantise scale x)) samples))"

definition decode :: "real \<Rightarrow> string \<Rightarrow> failure + real list" where
  "decode scale payload =
     (case unbase64 payload of
        None \<Rightarrow> Inl FormatError
      | Some bytes \<Rightarrow>
          (case fromLeBytes bytes of
             None \<Rightarrow> Inl FormatError
           | Some ws \<Rightarrow> Inr (map (dequantise scale) ws)))"

section \<open>Properties\<close>

subsection \<open>Session life cycle\<close>

lemma stopConversation_convState: "convState (stopConversation s) = idle"
  by (simp add: stopConversation_def)

lemma stopConversation_releases:
  "sessionRef (stopConversation s) = None \<and> audioContextInRef (stopConversation s) = None
   \<and> audioContextOutRef (stopConversation s) = None
   \<and> trace (stopConversation s) = trace s
        @ (case sessionRef s of Some h \<Rightarrow> [SessionClose h] | None \<Rightarrow> [])
        @ (case audioContextInRef s of Some c \<Rightarrow> [ContextClose c] | None \<Rightarrow> [])
        @ (case audioContextOutRef s of Some c \<Rightarrow> [ContextClose c] | None \<Rightarrow> [])"
  by (simp add: stopConversation_def closeSession_def closeContextIn_def closeContextOut_def
      split: option.splits)

lemma onerror_convState: "convState (onerror s) = idle"
  by (simp add: onerror_def stopConversation_def)

text \<open>
  C1. A transport error on the active session: \<open>onerror\<close> records
  \<open>'Connection error occurred.'\<close> and then calls \<open>stopConversation\<close>, whose last
  statement sets \<open>convState\<close> to the idle value with \<open>error: null\<close>. When the handler
  has run, the session and both contexts are closed and the error field is null: the
  message recorded one statement earlier is gone.
\<close>

theorem onerror_active_error_is_cleared:
  "error (convState (onerror activeSession)) = None
   \<and> convState (onerror activeSession) = idle
   \<and> trace (onerror activeSession) = [SessionClose 1, ContextClose 2, ContextClose 3]"
  by (simp add: onerror_def stopConversation_def idle_def activeSession_def initial_def
      closeSession_def closeContextIn_def closeContextOut_def)

text \<open>
  C2. A remote close of the active session: \<open>onclose\<close> sets \<open>convState\<close> to idle and
  does nothing else. The session handle and both audio contexts stay in their refs and no
  \<open>close()\<close> is called on any of them, whereas \<open>stopConversation\<close> on the same state
  closes all three and clears the refs.
\<close>

theorem onclose_active_keeps_resources:
  "sessionRef (onclose activeSession) = Some 1
   \<and> audioContextInRef (onclose activeSession) = Some 2
   \<and> audioContextOutRef (onclose activeSession) = Some 3
   \<and> trace (onclose activeSession) = []
   \<and> trace (stopConversation activeSession) = [SessionClose 1, ContextClose 2, ContextClose 3]
   \<and> sessionRef (stopConversation activeSession) = None"
  by (simp add: onclose_def activeSession_def initial_def stopConversation_def
      closeSession_def closeContextIn_def closeContextOut_def)

text \<open>
  C10. Whatever the state, the first thing \<open>startConversation\<close> does (line 57, before the
  microphone and the transport are touched) is to set \<open>isConnecting\<close> and to clear
  \<open>error\<close>; \<open>isActive\<close>, the refs and the trace are as they were, and the rest of the
  call runs on that state. So the outcome of the call is the same whatever error an
  earlier session had left.
\<close>

theorem startConversation_begins_connecting:
  "isConnecting (convState (startConnecting s))
   \<and> error (convState (startConnecting s)) = None
   \<and> isActive (convState (startConnecting s)) = isActive (convState s)
   \<and> startConnecting s = s\<lparr>convState := convState (startConnecting s)\<rparr>
   \<and> startConversation e s = tryStart e (startConnecting s)
   \<and> startConversation e (s\<lparr>convState := (convState s)\<lparr>error := x\<rparr>\<rparr>) = startConversation e s"
  by (simp add: startConnecting_def startConversation_def)

lemma tryStart_convState:
  "convState (tryStart e s) = convState s \<or> error (convState (tryStart e s)) \<noteq> None"
  by (simp add: tryStart_def catchStart_def Let_def split: sum.splits)

text \<open>
  C6, in the form that holds. \<open>startConversation\<close> has no guard of its own: called on an
  active session it always changes the state. What keeps it from being called there is
  the footer: while \<open>isActive\<close> holds, the only button rendered is the end button, and a
  click on it runs \<open>stopConversation\<close>.
\<close>

theorem start_is_kept_from_active_session_by_the_button:
  assumes "isActive (convState s)" and "\<not> isConnecting (convState s)"
  shows "control (convState s) = EndButton \<and> click e s = stopConversation s
     \<and> startConversation e s \<noteq> s"
proof -
  have "convState (startConversation e s) \<noteq> convState s"
  proof
    assume eq: "convState (startConversation e s) = convState s"
    from tryStart_convState [of e "startConnecting s"]
    show False
    proof
      assume "convState (tryStart e (startConnecting s)) = convState (startConnecting s)"
      then have "isConnecting (convState (startConversation e s))"
        by (simp add: startConversation_def startConnecting_def)
      with eq assms(2) show False by simp
    next
      assume "error (convState (tryStart e (startConnecting s))) \<noteq> None"
      then have "\<not> isActive (convState (startConversation e s))"
        by (auto simp: startConversation_def tryStart_def catchStart_def startConnecting_def Let_def
            split: sum.splits)
      with eq assms(1) show False by simp
    qed
  qed
  then have "startConversation e s \<noteq> s" by auto
  then show ?thesis using assms(1) by (simp add: control_def click_def)
qed

theorem start_is_kept_from_active_session_witness:
  "isActive (convState activeSession) \<and> \<not> isConnecting (convState activeSession)
   \<and> control (convState activeSession) = EndButton
   \<and> click okEnv activeSession = stopConversation activeSession
   \<and> startConversation okEnv activeSession \<noteq> activeSession"
  using start_is_kept_from_active_session_by_the_button [of activeSession okEnv]
  by (simp add: activeSession_def initial_def)

text \<open>
  C6 does not hold as stated: \<open>startConversation\<close> on the active session with a
  microphone and a transport that both answer sets \<open>isConnecting\<close>, and puts a second
  session handle (7) in \<open>sessionRef\<close> while the first (1) has not been closed.
\<close>

theorem start_on_active_session_counterexample:
  "startConversation okEnv activeSession \<noteq> activeSession
   \<and> sessionRef activeSession = Some 1
   \<and> sessionRef (startConversation okEnv activeSession) = Some 7
   \<and> trace (startConversation okEnv activeSession) = []
   \<and> isConnecting (convState (startConversation okEnv activeSession))"
  by (simp add: startConversation_def startConnecting_def tryStart_def okEnv_def
      activeSession_def initial_def)

text \<open>
  C9, in the form that holds. When \<open>getUserMedia\<close> rejects, or when everything before it
  succeeds and the connection promise rejects, the state becomes inactive, not
  connecting, and the error recorded is the \<open>message\<close> of the thrown value if that is a
  non-empty string, and \<open>'Failed to start microphone.'\<close> otherwise, in both cases alike.
\<close>

theorem start_failure_records_message_or_fallback:
  assumes "getUserMedia e = Inl err
     \<or> (getUserMedia e = Inr stream \<and> newContextIn e = Inr cin \<and> newContextOut e = Inr cout
         \<and> connect e = Inl err)"
  shows "convState (startConversation e s) =
      \<lparr>isActive = False, isConnecting = False,
       error = Some (case message err of
                       None \<Rightarrow> ''Failed to start microphone.''
                     | Some msg \<Rightarrow> if msg = [] then ''Failed to start microphone.'' else msg)\<rparr>"
  using assms
  by (auto simp: startConversation_def tryStart_def catchStart_def errorText_def Let_def)

theorem start_failure_records_message_or_fallback_witness:
  "getUserMedia refusedEnv = Inr 4 \<and> newContextIn refusedEnv = Inr 5
   \<and> newContextOut refusedEnv = Inr 6 \<and> connect refusedEnv = Inl (JsError (Some []))
   \<and> convState (startConversation refusedEnv initial) =
      \<lparr>isActive = False, isConnecting = False, error = Some ''Failed to start microphone.''\<rparr>"
  using start_failure_records_message_or_fallback
    [of refusedEnv "JsError (Some [])" 4 5 6 initial]
  by (simp add: refusedEnv_def)

text \<open>
  C9 does not hold as stated: when \<open>getUserMedia\<close> rejects with the message
  \<open>Permission denied\<close>, that very message is what \<open>convState.error\<close> holds.
\<close>

theorem start_failure_raw_message_counterexample:
  "getUserMedia deniedEnv = Inl (JsError (Some ''Permission denied''))
   \<and> error (convState (startConversation deniedEnv initial)) = Some ''Permission denied''"
  by (simp add: startConversation_def startConnecting_def tryStart_def deniedEnv_def
      catchStart_def errorText_def)

subsection \<open>Playback scheduling\<close>

lemma scheduled_append: "scheduled (xs @ ys) = scheduled xs @ scheduled ys"
  by (induction xs rule: scheduled.induct) auto

lemma scheduled_stops: "scheduled (map SourceStop xs) = []"
  by (induction xs) auto

lemma enqueue_Pcm:
  "audioContextOutRef s = Some c \<Longrightarrow>
   enqueue t (Pcm d) s =
     s\<lparr>trace := trace s @ [SourceStart (nextSource s) (max (nextStartTimeRef s) t) d],
       nextStartTimeRef := max (nextStartTimeRef s) t + d,
       sourcesRef := setAdd (nextSource s) (sourcesRef s),
       nextSource := Suc (nextSource s)\<rparr>"
  by (simp add: enqueue_def handled_def onmessage_def scheduleAudio_def clock_def
      audioMessage_def appendTranscripts_def completeTurn_def interrupt_def)

lemma enqueue_Malformed:
  "audioContextOutRef s = Some c \<Longrightarrow>
   enqueue t Malformed s = s\<lparr>nextStartTimeRef := max (nextStartTimeRef s) t\<rparr>"
  by (simp add: enqueue_def handled_def onmessage_def scheduleAudio_def clock_def
      audioMessage_def)

lemma enqueues_gapless:
  "audioContextOutRef s = Some c \<Longrightarrow> keepsUp (nextStartTimeRef s) tds \<Longrightarrow>
   scheduled (trace (enqueues tds s)) =
     scheduled (trace s) @ gapless (nextStartTimeRef s) (map snd tds)"
proof (induction tds arbitrary: s)
  case Nil
  then show ?case by simp
next
  case (Cons td tds)
  obtain t d where td: "td = (t, d)" by (cases td)
  from Cons.prems td have le: "t \<le> nextStartTimeRef s" and
    ku: "keepsUp (nextStartTimeRef s + d) tds" by simp_all
  let ?s' = "enqueue t (Pcm d) s"
  have s': "?s' = s\<lparr>trace := trace s @ [SourceStart (nextSource s) (nextStartTimeRef s) d],
       nextStartTimeRef := nextStartTimeRef s + d,
       sourcesRef := setAdd (nextSource s) (sourcesRef s),
       nextSource := Suc (nextSource s)\<rparr>"
    using enqueue_Pcm [OF Cons.prems(1), of t d] le by (simp add: max_absorb1)
  have "scheduled (trace (enqueues tds ?s')) =
      scheduled (trace ?s') @ gapless (nextStartTimeRef ?s') (map snd tds)"
    by (rule Cons.IH) (use Cons.prems(1) ku s' in simp_all)
  then show ?case by (simp add: td s' scheduled_append)
qed

lemma gapless_eq_map:
  "gapless c ds = map (\<lambda>i. (c + sum_list (take i ds), ds ! i)) [0..<length ds]"
proof (induction ds arbitrary: c)
  case Nil
  then show ?case by simp
next
  case (Cons d ds)
  have "[0..<length (d # ds)] = 0 # map Suc [0..<length ds]"
    by (simp add: upt_conv_Cons map_Suc_upt del: upt_Suc)
  then show ?case by (simp add: Cons.IH [of "c + d"] add.assoc comp_def del: upt_Suc)
qed

text \<open>
  Whatever the arrival times: the new segments keep the order and the durations of the
  chunks, each starts at or after the clock reading of its enqueue, and none starts
  before the end of the one before it.
\<close>

lemma enqueues_noOverlap:
  "audioContextOutRef s = Some c \<Longrightarrow>
   \<exists>segs. scheduled (trace (enqueues tds s)) = scheduled (trace s) @ segs
      \<and> noOverlap (nextStartTimeRef s) segs \<and> map snd segs = map snd tds
      \<and> list_all2 (\<lambda>td seg. fst td \<le> fst seg) tds segs"
proof (induction tds arbitrary: s)
  case Nil
  then show ?case by simp
next
  case (Cons td tds)
  obtain t d where td: "td = (t, d)" by (cases td)
  let ?s' = "enqueue t (Pcm d) s"
  note s' = enqueue_Pcm [OF Cons.prems(1), of t d]
  have "audioContextOutRef ?s' = Some c" using Cons.prems by (simp add: s')
  from Cons.IH [OF this] obtain segs where
    segs: "scheduled (trace (enqueues tds ?s')) = scheduled (trace ?s') @ segs"
      "noOverlap (nextStartTimeRef ?s') segs" "map snd segs = map snd tds"
      "list_all2 (\<lambda>td seg. fst td \<le> fst seg) tds segs"
    by blast
  let ?segs = "(max (nextStartTimeRef s) t, d) # segs"
  have "scheduled (trace (enqueues (td # tds) s)) = scheduled (trace s) @ ?segs"
    using segs(1) by (simp add: td s' scheduled_append)
  moreover have "noOverlap (nextStartTimeRef s) ?segs"
    using segs(2) by (simp add: s')
  moreover have "map snd ?segs = map snd (td # tds)"
    using segs(3) by (simp add: td)
  moreover have "list_all2 (\<lambda>td seg. fst td \<le> fst seg) (td # tds) ?segs"
    using segs(4) by (simp add: td)
  ultimately show ?case by blast
qed

text \<open>
  C3, in the form that holds. Let chunks of durations \<open>d1, ..., dn\<close> be enqueued with no
  interrupt between them, the first when the clock reads \<open>t1\<close>. If the cursor is not
  beyond \<open>t1\<close> at that moment, and every later chunk is enqueued no later than the end
  of the segment before it, then segment \<open>i\<close> (counted from 0) starts exactly at
  \<open>t1\<close> plus the sum of the first \<open>i\<close> durations.
\<close>

theorem enqueues_in_time_are_gapless:
  assumes "audioContextOutRef s = Some c"
    and "nextStartTimeRef s \<le> t1"
    and "keepsUp (t1 + d1) rest"
  shows "scheduled (trace (enqueues ((t1, d1) # rest) s)) =
     scheduled (trace s) @
     map (\<lambda>i. (t1 + sum_list (take i (d1 # map snd rest)), (d1 # map snd rest) ! i))
       [0..<length (d1 # map snd rest)]"
proof -
  let ?s' = "s\<lparr>nextStartTimeRef := t1\<rparr>"
  have eq: "enqueue t1 (Pcm d1) s = enqueue t1 (Pcm d1) ?s'"
    using assms(1,2) by (simp add: enqueue_Pcm [of _ c] max_absorb2)
  have "scheduled (trace (enqueues ((t1, d1) # rest) ?s')) =
     scheduled (trace ?s') @ gapless (nextStartTimeRef ?s') (map snd ((t1, d1) # rest))"
    by (rule enqueues_gapless [of _ c]) (use assms in simp_all)
  then have "scheduled (trace (enqueues ((t1, d1) # rest) s)) =
     scheduled (trace s) @ gapless t1 (d1 # map snd rest)"
    using eq by simp
  then show ?thesis by (simp only: gapless_eq_map)
qed

theorem enqueues_in_time_are_gapless_witness:
  "audioContextOutRef activeSession = Some 3
   \<and> nextStartTimeRef activeSession \<le> 2
   \<and> keepsUp (2 + 1/2) [(2, 1/2), (5/2, 1/2)]
   \<and> scheduled (trace (enqueues [(2, 1/2), (2, 1/2), (5/2, 1/2)] activeSession)) =
       [(2, 1/2), (5/2, 1/2), (3, 1/2)]"
  using enqueues_in_time_are_gapless [of activeSession 3 2 "1/2" "[(2, 1/2), (5/2, 1/2)]"]
  by (simp add: activeSession_def initial_def upt_conv_Cons del: upt_Suc)

text \<open>
  C3 does not hold as stated when a chunk arrives late: after a segment of one
  second started at 0, a chunk enqueued when the clock reads 5 starts at 5, not at 1.
\<close>

theorem enqueue_after_underrun_counterexample:
  "map fst (scheduled (trace (enqueues [(0, 1), (5, 1)] activeSession))) = [0, 5]
   \<and> map fst (scheduled (trace (enqueues [(0, 1), (5, 1)] activeSession))) \<noteq> [0, 0 + 1]"
  by (simp add: activeSession_def initial_def enqueue_Pcm [of _ 3] scheduled_append)

text \<open>
  C4. Let a message with \<open>interrupted\<close> set be handled, its audio part (if any) not
  failing, and let \<open>s1\<close> be the state after the audio part. Then the handler resolves;
  it calls \<open>stop()\<close> on every source of the set as it is at that point, in insertion
  order, which covers every source the set held before the message; it leaves the set
  empty and the cursor at 0. While the output context is open, a chunk of duration \<open>d\<close>
  that arrives next, at a clock reading \<open>currentTime e' \<ge> 0\<close>, is started exactly at
  that reading.
\<close>

theorem interrupted_stops_sources_and_resets_cursor:
  assumes "interrupted m" and "scheduleAudio e m s = Inr s1"
  shows "onmessage e m s = Inr (handled e m s)
    \<and> sourcesRef (handled e m s) = []
    \<and> nextStartTimeRef (handled e m s) = 0
    \<and> trace (handled e m s) = trace s1 @ map SourceStop (sourcesRef s1)
    \<and> set (sourcesRef s) \<subseteq> set (sourcesRef s1)
    \<and> (audioContextOutRef s \<noteq> None \<and> inlineData m' = Some (Pcm d) \<and> 0 \<le> currentTime e'
        \<longrightarrow> scheduled (trace (handled e' m' (handled e m s)))
            = scheduled (trace (handled e m s)) @ [(currentTime e', d)])"
proof -
  let ?s' = "handled e m s"
  have s': "?s' = interrupt m (completeTurn e m (appendTranscripts m s1))"
    and om: "onmessage e m s = Inr ?s'"
    using assms(2) by (simp_all add: handled_def onmessage_def)
  have tr1: "trace (completeTurn e m (appendTranscripts m s1)) = trace s1"
    and src1: "sourcesRef (completeTurn e m (appendTranscripts m s1)) = sourcesRef s1"
    and ctx1: "audioContextOutRef (completeTurn e m (appendTranscripts m s1)) = audioContextOutRef s1"
    by (simp_all add: completeTurn_def appendTranscripts_def Let_def split: option.splits)
  have a: "sourcesRef ?s' = []" "nextStartTimeRef ?s' = 0"
    "trace ?s' = trace s1 @ map SourceStop (sourcesRef s1)"
    "audioContextOutRef ?s' = audioContextOutRef s1"
    using assms(1) by (simp_all add: s' interrupt_def tr1 src1 ctx1)
  have ctx: "audioContextOutRef s1 = audioContextOutRef s"
    and sub: "set (sourcesRef s) \<subseteq> set (sourcesRef s1)"
    using assms(2)
    by (auto simp: scheduleAudio_def Let_def setAdd_def split: option.splits chunk.splits)
  have next_one: "scheduled (trace (handled e' m' ?s')) = scheduled (trace ?s') @ [(currentTime e', d)]"
    if "audioContextOutRef s \<noteq> None" "inlineData m' = Some (Pcm d)" "0 \<le> currentTime e'"
  proof -
    from that(1) a(4) ctx obtain c where c: "audioContextOutRef ?s' = Some c" by auto
    have "scheduleAudio e' m' ?s' =
       Inr (?s'\<lparr>trace := trace ?s' @ [SourceStart (nextSource ?s') (currentTime e') d],
                nextStartTimeRef := currentTime e' + d,
                sourcesRef := setAdd (nextSource ?s') [],
                nextSource := Suc (nextSource ?s')\<rparr>)"
      using that(2,3) c a(1,2) by (simp add: scheduleAudio_def max_absorb2)
    then show ?thesis
      by (simp add: handled_def [of e' m'] onmessage_def [of e' m'] interrupt_def completeTurn_def
          appendTranscripts_def Let_def scheduled_append scheduled_stops split: option.splits)
  qed
  show ?thesis using om a(1,2,3) sub next_one by blast
qed

theorem interrupted_stops_sources_and_resets_cursor_witness:
  "interrupted interruptedMessage
   \<and> scheduleAudio (clock (3/2)) interruptedMessage playingSession = Inr playingSession
   \<and> sourcesRef (handled (clock (3/2)) interruptedMessage playingSession) = []
   \<and> nextStartTimeRef (handled (clock (3/2)) interruptedMessage playingSession) = 0
   \<and> trace (handled (clock (3/2)) interruptedMessage playingSession) =
       [SourceStart 0 0 1, SourceStart 1 1 1, SourceStop 0, SourceStop 1]
   \<and> audioContextOutRef playingSession = Some 3
   \<and> scheduled (trace (handled (clock (7/4)) (audioMessage (Pcm 1))
         (handled (clock (3/2)) interruptedMessage playingSession))) =
       [(0, 1), (1, 1), (7/4, 1)]"
  using interrupted_stops_sources_and_resets_cursor
    [of interruptedMessage "clock (3/2)" playingSession playingSession
        "audioMessage (Pcm 1)" 1 "clock (7/4)"]
  by (simp add: interruptedMessage_def playingSession_def activeSession_def initial_def
      scheduleAudio_def clock_def audioMessage_def)

subsection \<open>A chunk that fails to decode\<close>

lemma appendTranscripts_raised:
  "appendTranscripts m (raised t s) = raised t (appendTranscripts m s)"
  by (simp add: raised_def appendTranscripts_def split: option.splits)

lemma completeTurn_raised:
  "completeTurn e m (raised t s) = raised t (completeTurn e m s)"
  by (simp add: raised_def completeTurn_def Let_def)

lemma interrupt_raised:
  "interrupt m (raised t s) = (if interrupted m then interrupt m s else raised t (interrupt m s))"
  by (simp add: raised_def interrupt_def)

lemma rest_raised:
  "interrupt m (completeTurn e m (appendTranscripts m (raised t s))) =
     (if interrupted m then interrupt m (completeTurn e m (appendTranscripts m s))
      else raised t (interrupt m (completeTurn e m (appendTranscripts m s))))"
  by (simp only: appendTranscripts_raised completeTurn_raised interrupt_raised)

lemma scheduleAudio_raised:
  assumes "t \<le> currentTime e"
  shows "scheduleAudio e m (raised t s) =
     (case scheduleAudio e m s of
        Inl r \<Rightarrow> Inl r
      | Inr s1 \<Rightarrow> if inlineData m = None \<or> audioContextOutRef s = None then Inr (raised t s1)
                   else Inr s1)"
proof -
  have mx: "max (max (nextStartTimeRef s) t) (currentTime e) = max (nextStartTimeRef s) (currentTime e)"
    using assms by simp
  show ?thesis
  proof (cases "inlineData m")
    case None
    then show ?thesis by (simp add: scheduleAudio_def)
  next
    case (Some ch)
    show ?thesis
    proof (cases "audioContextOutRef s")
      case None
      then show ?thesis using Some by (simp add: scheduleAudio_def raised_def)
    next
      case (Some c)
      then show ?thesis using \<open>inlineData m = Some ch\<close> mx
        by (cases ch) (simp_all add: scheduleAudio_def raised_def)
    qed
  qed
qed

lemma handled_raised:
  assumes "t \<le> currentTime e"
  shows "handled e m (raised t s) = handled e m s
     \<or> handled e m (raised t s) = raised t (handled e m s)"
proof (cases "scheduleAudio e m s")
  case (Inl r)
  then show ?thesis
    by (simp add: handled_def onmessage_def scheduleAudio_raised [OF assms])
next
  case (Inr s1)
  show ?thesis
  proof (cases "inlineData m = None \<or> audioContextOutRef s = None")
    case True
    then have "scheduleAudio e m (raised t s) = Inr (raised t s1)"
      using Inr by (simp add: scheduleAudio_raised [OF assms])
    then show ?thesis using Inr
      by (simp add: handled_def onmessage_def rest_raised)
  next
    case False
    then have "scheduleAudio e m (raised t s) = Inr s1"
      using Inr by (auto simp: scheduleAudio_raised [OF assms])
    then show ?thesis using Inr by (simp add: handled_def onmessage_def)
  qed
qed

lemma run_raised:
  "list_all (\<lambda>(e, m). t \<le> currentTime e) later \<Longrightarrow>
   run later (raised t s) = run later s \<or> run later (raised t s) = raised t (run later s)"
proof (induction later arbitrary: s)
  case Nil
  then show ?case by simp
next
  case (Cons em later)
  obtain e m where em: "em = (e, m)" by (cases em)
  from Cons.prems em have le: "t \<le> currentTime e"
    and rest: "list_all (\<lambda>(e, m). t \<le> currentTime e) later" by simp_all
  from handled_raised [OF le, of m s] show ?case
  proof
    assume "handled e m (raised t s) = handled e m s"
    then show ?thesis by (simp add: em)
  next
    assume "handled e m (raised t s) = raised t (handled e m s)"
    then show ?thesis using Cons.IH [OF rest, of "handled e m s"] by (simp add: em)
  qed
qed

text \<open>
  C8, in the form that holds. Let a message carry a chunk that fails to decode while the
  output context is open. The handler rejects with the format error at line 102; all it
  has changed by then is the cursor, raised to the clock reading of line 100, so
  \<open>convState\<close>, the sources already scheduled, the transcripts and the message log are
  untouched, nothing is scheduled for the chunk, and the rest of that message is not
  processed. Every message handled afterwards, at clock readings not before that one,
  leaves the same trace (the same segments at the same start times) and the same state,
  the cursor apart, as if the failing message had never arrived.
\<close>

theorem malformed_chunk_is_dropped_locally:
  assumes "inlineData m = Some Malformed" and "audioContextOutRef s = Some c"
    and "list_all (\<lambda>(e', m'). currentTime e \<le> currentTime e') later"
  shows "onmessage e m s =
       Inl (FormatError, s\<lparr>nextStartTimeRef := max (nextStartTimeRef s) (currentTime e)\<rparr>)
     \<and> (run later (handled e m s))\<lparr>nextStartTimeRef := 0\<rparr>
         = (run later s)\<lparr>nextStartTimeRef := 0\<rparr>
     \<and> trace (run later (handled e m s)) = trace (run later s)"
proof -
  have om: "onmessage e m s = Inl (FormatError, raised (currentTime e) s)"
    using assms(1,2) by (simp add: onmessage_def scheduleAudio_def raised_def)
  then have h: "handled e m s = raised (currentTime e) s"
    by (simp add: handled_def)
  from run_raised [OF assms(3), of s]
  have "(run later (raised (currentTime e) s))\<lparr>nextStartTimeRef := 0\<rparr>
      = (run later s)\<lparr>nextStartTimeRef := 0\<rparr>"
    by (auto simp: raised_def)
  moreover from run_raised [OF assms(3), of s]
  have "trace (run later (raised (currentTime e) s)) = trace (run later s)"
    by (auto simp: raised_def)
  ultimately show ?thesis using om h by (simp add: raised_def)
qed

theorem malformed_chunk_is_dropped_locally_witness:
  "inlineData (audioMessage Malformed) = Some Malformed
   \<and> audioContextOutRef playingSession = Some 3
   \<and> list_all (\<lambda>(e', m'). currentTime (clock 3) \<le> currentTime e')
        [(clock (7/2), audioMessage (Pcm 1))]
   \<and> onmessage (clock 3) (audioMessage Malformed) playingSession =
        Inl (FormatError, playingSession\<lparr>nextStartTimeRef := 3\<rparr>)
   \<and> trace (run [(clock (7/2), audioMessage (Pcm 1))]
        (handled (clock 3) (audioMessage Malformed) playingSession)) =
      [SourceStart 0 0 1, SourceStart 1 1 1, SourceStart 2 (7/2) 1]
   \<and> trace (run [(clock (7/2), audioMessage (Pcm 1))] playingSession) =
      [SourceStart 0 0 1, SourceStart 1 1 1, SourceStart 2 (7/2) 1]"
  using malformed_chunk_is_dropped_locally
    [of "audioMessage Malformed" playingSession 3 "clock 3" "[(clock (7/2), audioMessage (Pcm 1))]"]
  by (simp add: audioMessage_def clock_def playingSession_def activeSession_def initial_def
      handled_def onmessage_def scheduleAudio_def appendTranscripts_def completeTurn_def
      interrupt_def setAdd_def)

text \<open>
  C8 does not hold as stated: had the failing chunk been well formed, with a
  duration of one second say, it would have taken its place on the timeline and the chunk
  after it would have started one second later.
\<close>

theorem malformed_chunk_counterexample:
  "scheduled (trace (enqueue 0 (Pcm 1) (enqueue 0 Malformed activeSession))) = [(0, 1)]
   \<and> scheduled (trace (enqueue 0 (Pcm 1) (enqueue 0 (Pcm 1) activeSession))) = [(0, 1), (1, 1)]"
  by (simp add: activeSession_def initial_def enqueue_Pcm [of _ 3] enqueue_Malformed [of _ 3]
      scheduled_append)

subsection \<open>Transcripts and turns\<close>









subsection \<open>The PCM codec round trip\<close>

lemma charDigit_digitChar: "n < 64 \<Longrightarrow> charDigit (digitChar n) = Some n"
  by (auto simp: charDigit_def digitChar_def Let_def)

lemma charDigit_pad: "charDigit CHR ''='' = None"
  by (simp add: charDigit_def)

lemma digitChar_not_pad: "n < 64 \<Longrightarrow> digitChar n \<noteq> CHR ''=''"
  using charDigit_digitChar [of n] charDigit_pad by auto

lemma word_cat_leBytes: "word_cat (ucast (drop_bit 8 w) :: byte) (ucast w :: byte) = (w :: int16)"
  by (rule bit_word_eqI) (auto simp: bit_simps)

lemma fromLeBytes_leBytes:
  "fromLeBytes (concat (map leBytes ws)) = Some ws"
  by (induction ws) (simp_all add: leBytes_def word_cat_leBytes)


lemma unat_byte_less: "unat (a :: byte) < 256"
  using unsigned_less [of a, where ?'a = nat] by simp

lemma byte_of_unat: "of_nat (unat (a :: byte)) = a"
  by simp

lemma group1: "a < 256 \<Longrightarrow> a div 4 * 4 + a mod 4 * 16 div 16 = (a::nat)"
  by simp

lemma group2a: "b < 256 \<Longrightarrow> a div 4 * 4 + (a mod 4 * 16 + b div 16) div 16 = (a::nat)"
  by simp

lemma group2b: "(a mod 4 * 16 + b div 16) mod 16 * 16 + b mod 16 * 4 div 4 = (b::nat)"
  if "b < 256" for a b :: nat
proof -
  have "(a mod 4 * 16 + b div 16) mod 16 = b div 16" using that by simp
  then show ?thesis by simp
qed

lemma group3b: "(a mod 4 * 16 + b div 16) mod 16 * 16 + (b mod 16 * 4 + c div 64) div 4 = (b::nat)"
  if "b < 256" "c < 256" for a b c :: nat
proof -
  have "(a mod 4 * 16 + b div 16) mod 16 = b div 16" using that by simp
  moreover have "(b mod 16 * 4 + c div 64) div 4 = b mod 16" using that by simp
  ultimately show ?thesis by simp
qed

lemma group3c: "(b mod 16 * 4 + c div 64) mod 4 * 64 + c mod 64 = (c::nat)"
  if "c < 256" for b c :: nat
proof -
  have "(b mod 16 * 4 + c div 64) mod 4 = c div 64" using that by simp
  then show ?thesis by simp
qed

lemma sextet_bounds:
  "a < 256 \<Longrightarrow> a div 4 < (64::nat)"
  "b < 256 \<Longrightarrow> a mod 4 * 16 + b div 16 < (64::nat)"
  "c < 256 \<Longrightarrow> b mod 16 * 4 + c div 64 < (64::nat)"
  "c mod 64 < (64::nat)"
  "a mod 4 * 16 < (64::nat)"
  "b mod 16 * 4 < (64::nat)"
  by simp_all

lemma unbase64_base64: "unbase64 (base64 bs) = Some bs"
proof (induction bs rule: base64.induct)
  case 1
  then show ?case by simp
next
  case (2 a)
  note lt = unat_byte_less [of a]
  show ?case
    using group1 [OF lt] byte_of_unat [of a]
    by (simp add: charDigit_digitChar sextet_bounds lt)
next
  case (3 a b)
  note lt = unat_byte_less [of a] unat_byte_less [of b]
  have "digitChar (unat b mod 16 * 4) \<noteq> CHR ''=''"
    by (rule digitChar_not_pad) (simp add: sextet_bounds)
  then show ?case
    using group2a [OF lt(2), of "unat a"] group2b [OF lt(2), of "unat a"]
      byte_of_unat [of a] byte_of_unat [of b]
    by (simp add: charDigit_digitChar sextet_bounds lt)
next
  case (4 a b c rest)
  note lt = unat_byte_less [of a] unat_byte_less [of b] unat_byte_less [of c]
  have np: "digitChar (unat c mod 64) \<noteq> CHR ''=''"
    by (rule digitChar_not_pad) (simp add: sextet_bounds)
  show ?case
    using np "4.IH" group2a [OF lt(2), of "unat a"] group3b [OF lt(2,3), of "unat a"]
      group3c [OF lt(3), of "unat b"]
      byte_of_unat [of a] byte_of_unat [of b] byte_of_unat [of c]
    by (simp add: charDigit_digitChar sextet_bounds lt)
qed

lemma sint_quantise:
  "sint (quantise scale x) = max (- 32768) (min 32767 (round (x * scale)))"
proof -
  let ?k = "max (- 32768) (min 32767 (round (x * scale)))"
  have "- (2 ^ 15) \<le> ?k" "?k < 2 ^ 15" by simp_all
  then have "signed_take_bit 15 ?k = ?k"
    by (rule signed_take_bit_int_eq_self)
  then have "sint (word_of_int ?k :: int16) = ?k"
    by (simp add: sint_sbintrunc')
  then show ?thesis by (simp add: quantise_def)
qed

lemma clamp_nearest:
  fixes z :: real and k :: int
  assumes "- 32768 \<le> k" "k \<le> 32767"
  shows "\<bar>real_of_int (max (- 32768) (min 32767 (round z))) - z\<bar> \<le> \<bar>real_of_int k - z\<bar>"
proof -
  have r: "\<bar>z - real_of_int (round z)\<bar> \<le> \<bar>z - real_of_int k\<bar>"
    by (rule round_diff_minimal)
  have half: "\<bar>real_of_int (round z) - z\<bar> \<le> 1 / 2"
    by (rule of_int_round_abs_le)
  consider "round z < - 32768" | "- 32768 \<le> round z \<and> round z \<le> 32767" | "32767 < round z"
    by linarith
  then show ?thesis
  proof cases
    case 1
    then have "real_of_int (round z) \<le> - 32769" by linarith
    with half have "z \<le> - 32768" by linarith
    moreover have "max (- 32768) (min 32767 (round z)) = - 32768" using 1 by simp
    moreover have "- 32768 \<le> real_of_int k" using assms(1) by linarith
    ultimately show ?thesis by simp
  next
    case 2
    then have "max (- 32768) (min 32767 (round z)) = round z" by simp
    with r show ?thesis by (simp add: abs_minus_commute)
  next
    case 3
    then have "32768 \<le> real_of_int (round z)" by linarith
    with half have "32767 \<le> z" by linarith
    moreover have "max (- 32768) (min 32767 (round z)) = 32767" using 3 by simp
    moreover have "real_of_int k \<le> 32767" using assms(2) by linarith
    ultimately show ?thesis by simp
  qed
qed

lemma decode_encode:
  "decode scale (encode scale xs) = Inr (map (\<lambda>x. dequantise scale (quantise scale x)) xs)"
proof -
  have "concat (map (\<lambda>x. leBytes (quantise scale x)) xs) = concat (map leBytes (map (quantise scale) xs))"
    by (simp add: comp_def)
  then have "fromLeBytes (concat (map (\<lambda>x. leBytes (quantise scale x)) xs)) = Some (map (quantise scale) xs)"
    by (simp only: fromLeBytes_leBytes)
  then show ?thesis
    by (simp add: decode_def encode_def unbase64_base64 comp_def)
qed

text \<open>
  C7. For every positive scale and every sequence of samples, decoding the encoded
  sequence succeeds and yields, sample by sample and in the same order, the quantised
  sample scaled back; that value is a 16-bit signed integer number of steps, and no
  other such number of steps is nearer to the sample.
\<close>

theorem decode_encode_is_nearest_step:
  assumes "0 < scale"
  shows "decode scale (encode scale xs) = Inr (map (\<lambda>x. dequantise scale (quantise scale x)) xs)
    \<and> (\<forall>x. \<exists>k. - 32768 \<le> k \<and> k \<le> 32767 \<and> dequantise scale (quantise scale x) = real_of_int k / scale)
    \<and> (\<forall>x k. - 32768 \<le> k \<and> k \<le> 32767 \<longrightarrow>
          \<bar>dequantise scale (quantise scale x) - x\<bar> \<le> \<bar>real_of_int k / scale - x\<bar>)"
proof -
  have step: "\<exists>k. - 32768 \<le> k \<and> k \<le> 32767 \<and> dequantise scale (quantise scale x) = real_of_int k / scale" for x
    by (rule exI [of _ "max (- 32768) (min 32767 (round (x * scale)))"])
      (simp add: dequantise_def sint_quantise)
  have near: "\<bar>dequantise scale (quantise scale x) - x\<bar> \<le> \<bar>real_of_int k / scale - x\<bar>"
    if "- 32768 \<le> k" "k \<le> 32767" for x k
  proof -
    let ?q = "max (- 32768) (min 32767 (round (x * scale)))"
    have "\<bar>real_of_int ?q - x * scale\<bar> \<le> \<bar>real_of_int k - x * scale\<bar>"
      by (rule clamp_nearest [OF that])
    then have "\<bar>real_of_int ?q - x * scale\<bar> / scale \<le> \<bar>real_of_int k - x * scale\<bar> / scale"
      using assms by (simp add: divide_right_mono)
    moreover have "\<bar>real_of_int j - x * scale\<bar> / scale = \<bar>real_of_int j / scale - x\<bar>" for j
    proof -
      have "\<bar>real_of_int j - x * scale\<bar> / scale = \<bar>(real_of_int j - x * scale) / scale\<bar>"
        using assms by simp
      also have "(real_of_int j - x * scale) / scale = real_of_int j / scale - x"
        using assms by (simp add: diff_divide_distrib)
      finally show ?thesis .
    qed
    ultimately show ?thesis by (simp add: dequantise_def sint_quantise)
  qed
  show ?thesis using decode_encode step near by blast
qed


lemma encode_example: "encode 32768 [0, 1/2, - 1, 1] = ''AAAAQACA/38=''"
  by (simp add: encode_def quantise_def leBytes_def digitChar_def char_of_def bit_0)

theorem decode_encode_is_nearest_step_witness:
  "(0::real) < 32768
   \<and> encode 32768 [0, 1/2, - 1, 1] = ''AAAAQACA/38=''
   \<and> decode 32768 ''AAAAQACA/38='' = Inr [0, 1/2, - 1, 32767/32768]"
  using decode_encode_is_nearest_step [of 32768 "[0, 1/2, - 1, 1]"]
  by (simp add: encode_example dequantise_def sint_quantise)

end
